theory Spec2Isabelle
  imports Complex_Main "HOL-Library.Word"
begin

section \<open>Numeric values of the rasters\<close>

text \<open>
  The three scripts (\<^verbatim>\<open>calculate_htc.py\<close>, \<^verbatim>\<open>copernicus_tci.py\<close>,
  \<^verbatim>\<open>copernicus_tci_diss.py\<close>) do NumPy array arithmetic on rasters. A floating
  pixel is modelled by \<open>npfloat\<close>: the three IEEE special values and the finite values.
  Finite arithmetic is exact (a real number): rounding, overflow to infinity, the sign of
  zero and the payload of a not-a-number are outside the model. What the model keeps is
  which operation produces a not-a-number, an infinity or a finite value, and how they
  compare, which is what the properties below are about.
\<close>

datatype npfloat = NaN | NInf | Fin real | PInf

fun np_isnan :: "npfloat \<Rightarrow> bool" where
  "np_isnan NaN = True"
| "np_isnan _ = False"

fun np_isinf :: "npfloat \<Rightarrow> bool" where
  "np_isinf PInf = True"
| "np_isinf NInf = True"
| "np_isinf _ = False"

text \<open>IEEE addition: a not-a-number operand, or infinities of opposite sign, give not-a-number.\<close>

fun np_add :: "npfloat \<Rightarrow> npfloat \<Rightarrow> npfloat" where
  "np_add NaN _ = NaN"
| "np_add _ NaN = NaN"
| "np_add PInf NInf = NaN"
| "np_add NInf PInf = NaN"
| "np_add PInf _ = PInf"
| "np_add _ PInf = PInf"
| "np_add NInf _ = NInf"
| "np_add _ NInf = NInf"
| "np_add (Fin a) (Fin b) = Fin (a + b)"

fun np_negative :: "npfloat \<Rightarrow> npfloat" where
  "np_negative NaN = NaN"
| "np_negative PInf = NInf"
| "np_negative NInf = PInf"
| "np_negative (Fin a) = Fin (- a)"

definition np_subtract :: "npfloat \<Rightarrow> npfloat \<Rightarrow> npfloat" where
  "np_subtract x y = np_add x (np_negative y)"

fun np_multiply :: "npfloat \<Rightarrow> npfloat \<Rightarrow> npfloat" where
  "np_multiply NaN _ = NaN"
| "np_multiply _ NaN = NaN"
| "np_multiply (Fin a) (Fin b) = Fin (a * b)"
| "np_multiply PInf (Fin b) = (if b = 0 then NaN else if 0 < b then PInf else NInf)"
| "np_multiply NInf (Fin b) = (if b = 0 then NaN else if 0 < b then NInf else PInf)"
| "np_multiply (Fin a) PInf = (if a = 0 then NaN else if 0 < a then PInf else NInf)"
| "np_multiply (Fin a) NInf = (if a = 0 then NaN else if 0 < a then NInf else PInf)"
| "np_multiply PInf PInf = PInf"
| "np_multiply NInf NInf = PInf"
| "np_multiply PInf NInf = NInf"
| "np_multiply NInf PInf = NInf"

text \<open>
  NumPy's true division \<^verbatim>\<open>/\<close>. With NumPy's default error state a division by zero
  gives a RuntimeWarning and a value, never an exception: a nonzero number over zero is an
  infinity, zero over zero is not-a-number. (The zero of the model is the positive zero.)
\<close>

fun np_divide :: "npfloat \<Rightarrow> npfloat \<Rightarrow> npfloat" where
  "np_divide NaN _ = NaN"
| "np_divide _ NaN = NaN"
| "np_divide (Fin a) (Fin b) =
     (if b = 0 then (if a = 0 then NaN else if 0 < a then PInf else NInf)
      else Fin (a / b))"
| "np_divide (Fin a) PInf = Fin 0"
| "np_divide (Fin a) NInf = Fin 0"
| "np_divide PInf (Fin b) = (if 0 \<le> b then PInf else NInf)"
| "np_divide NInf (Fin b) = (if 0 \<le> b then NInf else PInf)"
| "np_divide PInf PInf = NaN"
| "np_divide PInf NInf = NaN"
| "np_divide NInf PInf = NaN"
| "np_divide NInf NInf = NaN"

text \<open>IEEE comparison \<^verbatim>\<open><\<close>: every comparison with a not-a-number is false.\<close>

fun np_less :: "npfloat \<Rightarrow> npfloat \<Rightarrow> bool" where
  "np_less NaN _ = False"
| "np_less _ NaN = False"
| "np_less _ NInf = False"
| "np_less NInf _ = True"
| "np_less PInf _ = False"
| "np_less _ PInf = True"
| "np_less (Fin a) (Fin b) = (a < b)"

definition np_less_equal :: "npfloat \<Rightarrow> npfloat \<Rightarrow> bool" where
  "np_less_equal x y = (\<not> np_isnan x \<and> \<not> np_isnan y \<and> \<not> np_less y x)"

text \<open>
  The order NumPy sorts and searches by: the IEEE order, with every not-a-number after
  every other value.
\<close>

definition sort_less :: "npfloat \<Rightarrow> npfloat \<Rightarrow> bool" where
  "sort_less x y = (np_less x y \<or> (np_isnan y \<and> \<not> np_isnan x))"

fun np_insort :: "npfloat \<Rightarrow> npfloat list \<Rightarrow> npfloat list" where
  "np_insort x [] = [x]"
| "np_insort x (y # ys) = (if sort_less y x then y # np_insort x ys else x # y # ys)"

definition np_sort :: "npfloat list \<Rightarrow> npfloat list" where
  "np_sort xs = foldr np_insort xs []"

section \<open>Two-dimensional arrays and raster datasets\<close>

text \<open>
  A band read by \<^verbatim>\<open>r.read(1)\<close> is a two-dimensional array: a list of rows.
  \<open>has_shape h w A\<close> says that \<open>A\<close> has \<open>h\<close> rows of \<open>w\<close> pixels each.
\<close>

type_synonym 'a array2 = "'a list list"

definition has_shape :: "nat \<Rightarrow> nat \<Rightarrow> 'a array2 \<Rightarrow> bool" where
  "has_shape h w A = (length A = h \<and> list_all (\<lambda>row. length row = w) A)"

definition shape0 :: "'a array2 \<Rightarrow> nat" where
  "shape0 A = length A"

definition shape1 :: "'a array2 \<Rightarrow> nat" where
  "shape1 A = (case A of [] \<Rightarrow> 0 | row # _ \<Rightarrow> length row)"

text \<open>An operation applied pixel by pixel to one array, or to two arrays of one shape.\<close>

definition pixelwise :: "('a \<Rightarrow> 'b) \<Rightarrow> 'a array2 \<Rightarrow> 'b array2" where
  "pixelwise f A = map (map f) A"

definition pixelwise2 :: "('a \<Rightarrow> 'b \<Rightarrow> 'c) \<Rightarrow> 'a array2 \<Rightarrow> 'b array2 \<Rightarrow> 'c array2" where
  "pixelwise2 f A B = map2 (map2 f) A B"

text \<open>The values of a stack of arrays at one pixel, in the order of the stack.\<close>

definition pixel_column :: "'a array2 list \<Rightarrow> nat \<Rightarrow> nat \<Rightarrow> 'a list" where
  "pixel_column stack i j = map (\<lambda>A. A ! i ! j) stack"

text \<open>
  The sum of the values at one pixel, added in the order of the stack from the first one
  (the values of \<open>pixel_column\<close> are those of a stack, which is never empty here).
\<close>

definition column_sum :: "npfloat list \<Rightarrow> npfloat" where
  "column_sum xs = (case xs of [] \<Rightarrow> Fin 0 | x # rest \<Rightarrow> foldl np_add x rest)"

text \<open>
  \<^verbatim>\<open>np.array([...])\<close> of a list of bands builds a three-dimensional array when the list
  is not empty and every band has the shape of the first one. The model covers these
  stacks; for every other list (an empty one, or bands of different shapes, where NumPy
  raises or broadcasts) the operations below return an error.
\<close>

definition stackable :: "'a array2 list \<Rightarrow> bool" where
  "stackable stack =
     (case stack of [] \<Rightarrow> False
      | A # _ \<Rightarrow> list_all (has_shape (shape0 A) (shape1 A)) stack)"

datatype error = ValueError | IndexError | TypeError

text \<open>
  A raster dataset as rasterio has it: the grid size, the number of bands, the pixel type,
  the coordinate reference system (\<open>None\<close> when the file has none), the affine transform
  and the bands written so far (numbered from 1).
\<close>

type_synonym affine = "real \<times> real \<times> real \<times> real \<times> real \<times> real"

definition identity_affine :: affine where
  "identity_affine = (1, 0, 0, 0, 1, 0)"

record 'a dataset =
  ds_height :: nat
  ds_width :: nat
  ds_count :: nat
  ds_dtype :: string
  ds_crs :: "string option"
  ds_transform :: affine
  ds_bands :: "nat \<rightharpoonup> 'a array2"

text \<open>
  \<^verbatim>\<open>rasterio.open(path, 'w', driver='GTiff', height=, width=, count=, dtype=, crs=, transform=)\<close>:
  the keyword arguments \<^verbatim>\<open>crs\<close> and \<^verbatim>\<open>transform\<close> default to \<^verbatim>\<open>None\<close>; a dataset
  opened without them has no coordinate reference system and the identity transform.
\<close>

definition rio_open_w ::
  "nat \<Rightarrow> nat \<Rightarrow> nat \<Rightarrow> string \<Rightarrow> string option \<Rightarrow> affine option \<Rightarrow> 'a dataset" where
  "rio_open_w height width count dtype crs transform =
     \<lparr>ds_height = height, ds_width = width, ds_count = count, ds_dtype = dtype,
      ds_crs = crs,
      ds_transform = (case transform of None \<Rightarrow> identity_affine | Some t \<Rightarrow> t),
      ds_bands = Map.empty\<rparr>"

definition dst_write :: "'a array2 \<Rightarrow> nat \<Rightarrow> 'a dataset \<Rightarrow> 'a dataset" where
  "dst_write arr band dst = dst\<lparr>ds_bands := (ds_bands dst)(band \<mapsto> arr)\<rparr>"

text \<open>\<^verbatim>\<open>r.read(1)\<close>: the first band; rasterio raises IndexError for a band the file does not have.\<close>

definition read1 :: "'a dataset \<Rightarrow> error + 'a array2" where
  "read1 r = (case ds_bands r 1 of None \<Rightarrow> Inl IndexError | Some A \<Rightarrow> Inr A)"

fun read_all :: "'a dataset list \<Rightarrow> error + 'a array2 list" where
  "read_all [] = Inr []"
| "read_all (r # rs) =
     (case read1 r of Inl e \<Rightarrow> Inl e
      | Inr A \<Rightarrow> (case read_all rs of Inl e \<Rightarrow> Inl e | Inr As \<Rightarrow> Inr (A # As)))"

section \<open>The aggregator (calculate\_htc.py)\<close>

subsection \<open>The yearly loop\<close>

text \<open>
  \<^verbatim>\<open>np.sum(np.array([r.read(1) for r in rs]), axis=0)\<close>: the reduction along the first
  axis adds the bands one after the other, pixel by pixel, starting from the first band.
\<close>

fun np_sum_axis0 :: "npfloat array2 list \<Rightarrow> npfloat array2" where
  "np_sum_axis0 [] = []"
| "np_sum_axis0 (A # stack) = foldl (pixelwise2 np_add) A stack"

definition TEMP :: "npfloat array2 list \<Rightarrow> npfloat array2" where
  "TEMP bands_T = np_sum_axis0 bands_T"

definition OPAD :: "npfloat array2 list \<Rightarrow> npfloat array2" where
  "OPAD bands_P = np_sum_axis0 bands_P"

text \<open>Line 43, \<^verbatim>\<open>HTC = np.where(np.isnan(HTC), np.nan, HTC)\<close>, at one pixel and on the array.\<close>

definition nan_scrub :: "npfloat \<Rightarrow> npfloat" where
  "nan_scrub x = (if np_isnan x then NaN else x)"

definition where_isnan :: "npfloat array2 \<Rightarrow> npfloat array2" where
  "where_isnan A = pixelwise nan_scrub A"

text \<open>
  Lines 35 to 43 for one year, on the bands read from the temperature and precipitation
  files: the two sums, the ratio \<^verbatim>\<open>OPAD / TEMP\<close> and the scrub. No step of these
  lines raises on arrays of one shape, whatever their values. For stacks that are not two
  non-empty lists of bands of one common shape the model returns \<open>ValueError\<close>, which
  stands for whatever NumPy does there (it raises, or broadcasts one array over the other).
\<close>

definition HTC :: "npfloat array2 list \<Rightarrow> npfloat array2 list \<Rightarrow> error + npfloat array2" where
  "HTC bands_T bands_P =
     (if stackable (bands_T @ bands_P) \<and> bands_T \<noteq> [] \<and> bands_P \<noteq> []
      then Inr (where_isnan (pixelwise2 np_divide (OPAD bands_P) (TEMP bands_T)))
      else Inl ValueError)"

text \<open>
  Lines 46 to 48: the yearly raster is opened for writing with driver, height, width,
  count and dtype only, and the ratio is written as band 1.
\<close>

definition save_htc :: "npfloat array2 \<Rightarrow> npfloat dataset" where
  "save_htc A = dst_write A 1 (rio_open_w (shape0 A) (shape1 A) 1 ''float32'' None None)"

definition htc_year :: "npfloat dataset list \<Rightarrow> npfloat dataset list \<Rightarrow> error + npfloat dataset" where
  "htc_year rs_T rs_P =
     (case read_all rs_T of Inl e \<Rightarrow> Inl e
      | Inr bands_T \<Rightarrow>
         (case read_all rs_P of Inl e \<Rightarrow> Inl e
          | Inr bands_P \<Rightarrow>
             (case HTC bands_T bands_P of Inl e \<Rightarrow> Inl e
              | Inr A \<Rightarrow> Inr (save_htc A))))"

subsection \<open>The multi-year median\<close>

text \<open>Python's \<^verbatim>\<open>str\<close> of an integer, \<^verbatim>\<open>s.endswith(t)\<close> and the slice \<^verbatim>\<open>s[i:j]\<close>
  for indices that are not negative (a slice never raises: it is cut at the end of the string).\<close>

function str_nat :: "nat \<Rightarrow> string" where
  "str_nat n =
     (if n < 10 then [''0123456789'' ! n]
      else str_nat (n div 10) @ [''0123456789'' ! (n mod 10)])"
  by pat_completeness auto
termination
  by (relation "measure id") auto

declare str_nat.simps [simp del]

definition str_int :: "int \<Rightarrow> string" where
  "str_int i = (if i < 0 then ''-'' @ str_nat (nat (- i)) else str_nat (nat i))"

definition endswith :: "string \<Rightarrow> string \<Rightarrow> bool" where
  "endswith s t = (length t \<le> length s \<and> drop (length s - length t) s = t)"

definition py_slice :: "nat \<Rightarrow> nat \<Rightarrow> 'a list \<Rightarrow> 'a list" where
  "py_slice i j s = take (j - i) (drop i s)"

text \<open>\<^verbatim>\<open>os.path.join(a, b)\<close> of two parts, on a POSIX system.\<close>

definition os_path_join :: "string \<Rightarrow> string \<Rightarrow> string" where
  "os_path_join a b =
     (if b \<noteq> [] \<and> hd b = CHR ''/'' then b
      else if a = [] \<or> last a = CHR ''/'' then a @ b
      else a @ ''/'' @ b)"

text \<open>Line 55: \<^verbatim>\<open>htc_years = list(range(2001, 2025))\<close>.\<close>

definition htc_years :: "int list" where
  "htc_years = [2001..2024]"

text \<open>
  Lines 53 and 56. \<open>listing\<close> is what \<^verbatim>\<open>os.listdir(htc_dir)\<close> returns. The first
  comprehension keeps the names ending in \<^verbatim>\<open>.tif\<close> and joins each to the directory; the
  second keeps a joined path \<open>f\<close> when \<^verbatim>\<open>f[4:8]\<close> is the text of one of the years.
\<close>

definition htc_list_all :: "string \<Rightarrow> string list \<Rightarrow> string list" where
  "htc_list_all htc_dir listing =
     map (os_path_join htc_dir) (filter (\<lambda>f. endswith f ''.tif'') listing)"

definition year_selected :: "string \<Rightarrow> bool" where
  "year_selected f = (py_slice 4 8 f \<in> set (map str_int htc_years))"

definition htc_list :: "string \<Rightarrow> string list \<Rightarrow> string list" where
  "htc_list htc_dir listing = filter year_selected (htc_list_all htc_dir listing)"

text \<open>
  \<^verbatim>\<open>np.median\<close> of the values at one pixel: not-a-number when one of them is (or when
  there is none); otherwise the middle value in sorted order, or the mean of the two middle
  values when their number is even.
\<close>

definition np_median :: "npfloat list \<Rightarrow> npfloat" where
  "np_median xs =
     (if xs = [] \<or> list_ex np_isnan xs then NaN
      else let s = np_sort xs; n = length xs
           in if odd n then s ! (n div 2)
              else np_divide (np_add (s ! (n div 2 - 1)) (s ! (n div 2))) (Fin 2))"

definition np_median_axis0 :: "npfloat array2 list \<Rightarrow> npfloat array2" where
  "np_median_axis0 stack =
     (case stack of [] \<Rightarrow> []
      | A # _ \<Rightarrow>
          map (\<lambda>i. map (\<lambda>j. np_median (pixel_column stack i j)) [0..<shape1 A])
            [0..<shape0 A])"

text \<open>Line 64, \<^verbatim>\<open>HTC_MEDIAN[HTC_MEDIAN < 0] = np.nan\<close>, at one pixel.\<close>

definition negative_to_nan :: "npfloat \<Rightarrow> npfloat" where
  "negative_to_nan x = (if np_less x (Fin 0) then NaN else x)"

text \<open>
  Lines 62 to 64 on the bands of the selected files. With no file selected the median of
  the empty array is a scalar, and the item assignment of line 64 raises TypeError.
\<close>

definition HTC_MEDIAN :: "npfloat array2 list \<Rightarrow> error + npfloat array2" where
  "HTC_MEDIAN bands =
     (if bands = [] then Inl TypeError
      else if stackable bands then Inr (pixelwise negative_to_nan (np_median_axis0 bands))
      else Inl ValueError)"

text \<open>Lines 59 to 69: the median raster is opened for writing like the yearly ones.\<close>

definition htc_median_file :: "npfloat dataset list \<Rightarrow> error + npfloat dataset" where
  "htc_median_file htc_MULTI =
     (case read_all htc_MULTI of Inl e \<Rightarrow> Inl e
      | Inr bands \<Rightarrow>
         (case HTC_MEDIAN bands of Inl e \<Rightarrow> Inl e
          | Inr M \<Rightarrow>
              Inr (dst_write M 1 (rio_open_w (shape0 M) (shape1 M) 1 ''float32'' None None))))"

section \<open>The scaler (copernicus\_tci.py)\<close>

text \<open>
  The raw band holds integers. Line 105: \<^verbatim>\<open>data / 100\<close> is a true division, so
  \<^verbatim>\<open>np.where\<close> gives a floating array. For an integer in the range 0 to 10000 the
  quotient by 100 is a whole number or at least 0.01 away from one, so the rounding of the
  floating division cannot move it across a whole number and the exact quotient of the
  model has the same integer part.
\<close>

definition scaled_where :: "int \<Rightarrow> real" where
  "scaled_where data =
     (if 0 \<le> data \<and> data \<le> 10000 then real_of_int data / 100 + 1 else 108)"

text \<open>
  Line 106, \<^verbatim>\<open>astype(np.uint8)\<close>: the fraction is cut off (towards zero) and the
  integer is kept modulo 256.
\<close>

definition c_truncate :: "real \<Rightarrow> int" where
  "c_truncate r = (if 0 \<le> r then \<lfloor>r\<rfloor> else \<lceil>r\<rceil>)"

definition astype_uint8 :: "real \<Rightarrow> 8 word" where
  "astype_uint8 r = word_of_int (c_truncate r)"

definition scaled_data :: "int \<Rightarrow> 8 word" where
  "scaled_data data = astype_uint8 (scaled_where data)"

text \<open>Line 134: \<^verbatim>\<open>np.where(data == 0, 109, scaled_data)\<close>.\<close>

definition color_mapped_data :: "int \<Rightarrow> 8 word \<Rightarrow> 8 word" where
  "color_mapped_data data scaled = (if data = 0 then 109 else scaled)"

text \<open>
  Lines 99 to 151 for one input file, without the warp: the scaled raster and the
  three-band colour raster, both opened with the \<^verbatim>\<open>crs\<close> and \<^verbatim>\<open>transform\<close> read from
  the source.
\<close>

definition scale_file :: "int dataset \<Rightarrow> error + (8 word dataset \<times> 8 word dataset)" where
  "scale_file src =
     (case read1 src of Inl e \<Rightarrow> Inl e
      | Inr data \<Rightarrow>
          (let transform = ds_transform src;
               crs = ds_crs src;
               scaled = pixelwise scaled_data data;
               scaled_dst = dst_write scaled 1
                 (rio_open_w (shape0 scaled) (shape1 scaled) 1 ''uint8'' crs (Some transform));
               colour = pixelwise2 color_mapped_data data scaled;
               colour_dst = dst_write colour 3 (dst_write colour 2 (dst_write colour 1
                 (rio_open_w (shape0 colour) (shape1 colour) 3 ''uint8'' crs (Some transform))))
           in Inr (scaled_dst, colour_dst)))"

section \<open>The DISS combiner (copernicus\_tci\_diss.py)\<close>

text \<open>
  The index rasters of the three periods are 8-bit unsigned, as the scaler writes them:
  valid values are at most 101, 108 and above mark pixels without a value. Lines 82 to 84.
  The sum \<^verbatim>\<open>n1_tci1 + n3_tci3\<close> is an 8-bit sum (it wraps at 256) before it is halved.
\<close>

definition n1_memory :: "8 word \<Rightarrow> 8 word" where
  "n1_memory n1_tci1 = (if n1_tci1 \<le> 101 then n1_tci1 else 50)"

definition n2_memory :: "8 word \<Rightarrow> 8 word \<Rightarrow> 8 word \<Rightarrow> real" where
  "n2_memory n1_tci1 n2_tci2 n3_tci3 =
     (if n2_tci2 \<le> 101 then real (unat n2_tci2)
      else 0.5 * real (unat (n1_tci1 + n3_tci3)))"

definition n3_memory :: "8 word \<Rightarrow> 8 word" where
  "n3_memory n3_tci3 = (if n3_tci3 \<le> 101 then n3_tci3 else 50)"

text \<open>
  The five coefficients are left open in the source (\<^verbatim>\<open>a = ?.?\<close>); they are parameters.
\<close>

record coefficients =
  coef_a :: real
  coef_b :: real
  coef_c :: real
  diss_base :: real
  exp_factor :: real

text \<open>Line 87: the formula, on the climatological reference pixel and the three memory terms.\<close>

definition diss_formula :: "coefficients \<Rightarrow> npfloat \<Rightarrow> 8 word \<Rightarrow> real \<Rightarrow> 8 word \<Rightarrow> npfloat" where
  "diss_formula k n5_siel40median m1 m2 m3 =
     np_multiply (np_subtract n5_siel40median (Fin (diss_base k)))
       (Fin (exp (2 * (exp_factor k + coef_a k * real (unat m1) + coef_b k * m2
                       + coef_c k * real (unat m3)))))"

text \<open>Line 90: \<^verbatim>\<open>n4_diss = np.where(n6_mask == 1, n4_diss, -1)\<close>.\<close>

definition n4_diss :: "int \<Rightarrow> npfloat \<Rightarrow> npfloat" where
  "n4_diss n6_mask computed = (if n6_mask = 1 then computed else Fin (- 1))"

text \<open>
  Line 96: \<^verbatim>\<open>np.digitize(x, bins)\<close> with increasing bins is a search from the right: the
  index of the first bin that is greater than \<open>x\<close> in the sorting order (the number of
  bins when there is none).
\<close>

definition np_digitize :: "npfloat \<Rightarrow> npfloat list \<Rightarrow> nat" where
  "np_digitize x bs = length (takeWhile (\<lambda>b. \<not> sort_less x b) bs)"

definition bins :: "npfloat list" where
  "bins = [Fin 0, Fin 0.5, Fin 0.8, Fin 1.5, Fin 5, PInf]"

definition n2_diss_kl :: "npfloat \<Rightarrow> nat" where
  "n2_diss_kl x = np_digitize x bins"

text \<open>Lines 82 to 96 at one pixel: the continuous output and the class.\<close>

definition process_pixel ::
  "coefficients \<Rightarrow> 8 word \<Rightarrow> 8 word \<Rightarrow> 8 word \<Rightarrow> npfloat \<Rightarrow> int \<Rightarrow> npfloat \<times> nat" where
  "process_pixel k n1_tci1 n2_tci2 n3_tci3 n5_siel40median n6_mask =
     (let m1 = n1_memory n1_tci1;
          m2 = n2_memory n1_tci1 n2_tci2 n3_tci3;
          m3 = n3_memory n3_tci3;
          computed = diss_formula k n5_siel40median m1 m2 m3;
          masked = n4_diss n6_mask computed
      in (masked, n2_diss_kl masked))"

section \<open>Properties\<close>

subsection \<open>Arrays\<close>


lemma nan_scrub_id: "nan_scrub x = x"
  by (cases x) (simp_all add: nan_scrub_def)

lemma has_shape_nth: "has_shape h w A \<Longrightarrow> i < h \<Longrightarrow> length (A ! i) = w"
  by (auto simp: has_shape_def list_all_length)

lemma has_shape_pixelwise2:
  assumes "has_shape h w A" and "has_shape h w B"
  shows "has_shape h w (pixelwise2 f A B)"
  using assms
  by (auto simp: has_shape_def pixelwise2_def list_all_length)

lemma nth_pixelwise2:
  assumes "has_shape h w A" and "has_shape h w B" and "i < h" and "j < w"
  shows "pixelwise2 f A B ! i ! j = f (A ! i ! j) (B ! i ! j)"
proof -
  have la: "length A = h" and lb: "length B = h"
    using assms(1,2) by (simp_all add: has_shape_def)
  have ra: "length (A ! i) = w" and rb: "length (B ! i) = w"
    using assms(1,2,3) by (simp_all add: has_shape_nth)
  show ?thesis
    using la lb ra rb assms(3,4) by (simp add: pixelwise2_def)
qed

lemma has_shape_pixelwise: "has_shape h w A \<Longrightarrow> has_shape h w (pixelwise f A)"
  by (auto simp: has_shape_def pixelwise_def list_all_length)

lemma nth_pixelwise:
  assumes "has_shape h w A" and "i < h" and "j < w"
  shows "pixelwise f A ! i ! j = f (A ! i ! j)"
  using assms has_shape_nth[OF assms(1,2)]
  by (simp add: pixelwise_def has_shape_def)

lemma pixel_column_Nil: "pixel_column [] i j = []"
  by (simp add: pixel_column_def)

lemma pixel_column_Cons: "pixel_column (A # stack) i j = A ! i ! j # pixel_column stack i j"
  by (simp add: pixel_column_def)

lemma foldl_add_shape:
  "has_shape h w A \<Longrightarrow> list_all (has_shape h w) stack \<Longrightarrow>
   has_shape h w (foldl (pixelwise2 np_add) A stack)"
  by (induction stack arbitrary: A) (simp_all add: has_shape_pixelwise2)

lemma foldl_add_pixel:
  "has_shape h w A \<Longrightarrow> list_all (has_shape h w) stack \<Longrightarrow> i < h \<Longrightarrow> j < w \<Longrightarrow>
   foldl (pixelwise2 np_add) A stack ! i ! j = foldl np_add (A ! i ! j) (pixel_column stack i j)"
proof (induction stack arbitrary: A)
  case Nil
  then show ?case by (simp add: pixel_column_Nil)
next
  case (Cons B stack)
  have sB: "has_shape h w B" and rest: "list_all (has_shape h w) stack"
    using Cons.prems(2) by simp_all
  have "foldl (pixelwise2 np_add) (pixelwise2 np_add A B) stack ! i ! j
        = foldl np_add (pixelwise2 np_add A B ! i ! j) (pixel_column stack i j)"
    using Cons.IH[OF has_shape_pixelwise2[OF Cons.prems(1) sB] rest Cons.prems(3,4)] .
  then show ?case
    using nth_pixelwise2[OF Cons.prems(1) sB Cons.prems(3,4), where f = np_add]
    by (simp add: pixel_column_Cons)
qed

lemma sum_axis0_shape:
  "stack \<noteq> [] \<Longrightarrow> list_all (has_shape h w) stack \<Longrightarrow> has_shape h w (np_sum_axis0 stack)"
  by (cases stack) (simp_all add: foldl_add_shape)

lemma sum_axis0_pixel:
  "stack \<noteq> [] \<Longrightarrow> list_all (has_shape h w) stack \<Longrightarrow> i < h \<Longrightarrow> j < w \<Longrightarrow>
   np_sum_axis0 stack ! i ! j = column_sum (pixel_column stack i j)"
proof (cases stack)
  case Nil
  assume "stack \<noteq> []"
  with Nil show ?thesis by simp
next
  case (Cons A rest)
  assume "list_all (has_shape h w) stack" and "i < h" and "j < w"
  then have "foldl (pixelwise2 np_add) A rest ! i ! j
             = foldl np_add (A ! i ! j) (pixel_column rest i j)"
    using Cons by (intro foldl_add_pixel) simp_all
  then show ?thesis
    using Cons by (simp add: column_sum_def pixel_column_Cons)
qed

lemma stackable_uniform:
  assumes "stack \<noteq> []" and "list_all (has_shape h w) stack" and "0 < h"
  shows "stackable stack"
proof -
  obtain A rest where st: "stack = A # rest"
    using assms(1) by (cases stack) auto
  have sA: "has_shape h w A"
    using assms(2) st by simp
  then have "shape0 A = h" and "shape1 A = w"
    using assms(3) by (cases A; simp add: has_shape_def shape0_def shape1_def)+
  then show ?thesis
    using assms(2) st by (simp add: stackable_def)
qed

lemma HTC_pixel:
  assumes "bands_T \<noteq> []" and "bands_P \<noteq> []"
    and "list_all (has_shape h w) bands_T" and "list_all (has_shape h w) bands_P"
    and "i < h" and "j < w"
  shows "\<exists>A. HTC bands_T bands_P = Inr A \<and> has_shape h w A \<and>
           A ! i ! j = np_divide (column_sum (pixel_column bands_P i j))
                                 (column_sum (pixel_column bands_T i j))"
proof -
  let ?T = "TEMP bands_T" and ?P = "OPAD bands_P"
  have st: "stackable (bands_T @ bands_P)"
    using assms by (intro stackable_uniform[of _ h w]) auto
  have sT: "has_shape h w ?T" and sP: "has_shape h w ?P"
    using assms by (simp_all add: TEMP_def OPAD_def sum_axis0_shape)
  have eq: "HTC bands_T bands_P = Inr (pixelwise2 np_divide ?P ?T)"
    using st assms(1,2) by (simp add: HTC_def where_isnan_def nan_scrub_id[abs_def] pixelwise_def)
  have px: "pixelwise2 np_divide ?P ?T ! i ! j = np_divide (?P ! i ! j) (?T ! i ! j)"
    using nth_pixelwise2[OF sP sT assms(5,6)] .
  show ?thesis
    using eq px has_shape_pixelwise2[OF sP sT] assms
    by (simp add: TEMP_def OPAD_def sum_axis0_pixel)
qed

subsection \<open>The aggregator's yearly ratio\<close>

text \<open>
  Claim C10. The scrub of line 43, \<^verbatim>\<open>np.where(np.isnan(HTC), np.nan, HTC)\<close>, returns its
  argument: at every pixel, and so on every array. A not-a-number pixel stays one and every
  other pixel is unchanged, so the step changes nothing.
\<close>

theorem where_isnan_identity:
  "where_isnan A = A \<and> nan_scrub x = x \<and> np_isnan (nan_scrub x) = np_isnan x"
  by (simp add: where_isnan_def nan_scrub_id[abs_def] pixelwise_def)

text \<open>
  Claim C1. For the temperature and precipitation bands of one year, all of one shape, the
  yearly computation returns an array of that shape whose pixel \<open>(i, j)\<close> is the sum of the
  precipitation values at that pixel divided by the sum of the temperature values at that
  pixel. For one pixel, four temperature bands holding 1 and four precipitation bands
  holding 2, the result is 8/4 = 2.
\<close>

theorem HTC_ratio_of_sums:
  "(bands_T \<noteq> [] \<and> bands_P \<noteq> [] \<and> list_all (has_shape h w) bands_T \<and>
    list_all (has_shape h w) bands_P \<and> i < h \<and> j < w \<longrightarrow>
      (\<exists>A. HTC bands_T bands_P = Inr A \<and> has_shape h w A \<and>
           A ! i ! j = np_divide (column_sum (pixel_column bands_P i j))
                                 (column_sum (pixel_column bands_T i j))))
   \<and> HTC [[[Fin 1]], [[Fin 1]], [[Fin 1]], [[Fin 1]]]
          [[[Fin 2]], [[Fin 2]], [[Fin 2]], [[Fin 2]]] = Inr [[Fin 2]]"
proof (intro conjI impI)
  assume "bands_T \<noteq> [] \<and> bands_P \<noteq> [] \<and> list_all (has_shape h w) bands_T \<and>
    list_all (has_shape h w) bands_P \<and> i < h \<and> j < w"
  then show "\<exists>A. HTC bands_T bands_P = Inr A \<and> has_shape h w A \<and>
           A ! i ! j = np_divide (column_sum (pixel_column bands_P i j))
                                 (column_sum (pixel_column bands_T i j))"
    by (intro HTC_pixel) simp_all
next
  show "HTC [[[Fin 1]], [[Fin 1]], [[Fin 1]], [[Fin 1]]]
            [[[Fin 2]], [[Fin 2]], [[Fin 2]], [[Fin 2]]] = Inr [[Fin 2]]"
    by (simp add: HTC_def stackable_def has_shape_def shape0_def shape1_def OPAD_def
        TEMP_def pixelwise2_def pixelwise_def where_isnan_def nan_scrub_def)
qed

theorem HTC_ratio_of_sums_witness:
  "[[[Fin 6, Fin 1]], [[Fin 4, Fin 1]]] \<noteq> [] \<and> [[[Fin 3, Fin 0]], [[Fin 2, Fin 5]]] \<noteq> [] \<and>
   list_all (has_shape 1 2) [[[Fin 6, Fin 1]], [[Fin 4, Fin 1]]] \<and>
   list_all (has_shape 1 2) [[[Fin 3, Fin 0]], [[Fin 2, Fin 5]]] \<and> (0::nat) < 1 \<and> (1::nat) < 2 \<and>
   (\<exists>A. HTC [[[Fin 6, Fin 1]], [[Fin 4, Fin 1]]] [[[Fin 3, Fin 0]], [[Fin 2, Fin 5]]] = Inr A \<and>
        has_shape 1 2 A \<and> A ! 0 ! 1 = Fin (5 / 2))"
  using HTC_ratio_of_sums[of "[[[Fin 6, Fin 1]], [[Fin 4, Fin 1]]]"
      "[[[Fin 3, Fin 0]], [[Fin 2, Fin 5]]]" 1 2 0 1]
  by (simp add: has_shape_def column_sum_def pixel_column_def)

text \<open>
  Claim C4, as the specification states it, fails: where the temperature sum is zero and
  the precipitation sum is 8, the ratio is plus infinity, which is not a not-a-number.
\<close>

theorem HTC_zero_temperature_counterexample:
  "column_sum (pixel_column [[[Fin 0]]] 0 0) = Fin 0 \<and>
   column_sum (pixel_column [[[Fin 8]]] 0 0) = Fin 8 \<and>
   HTC [[[Fin 0]]] [[[Fin 8]]] = Inr [[PInf]] \<and>
   \<not> np_isnan ([[PInf]] ! 0 ! 0)"
  by (simp add: HTC_def stackable_def has_shape_def shape0_def shape1_def OPAD_def
      TEMP_def pixelwise2_def pixelwise_def where_isnan_def nan_scrub_def column_sum_def
      pixel_column_def)

text \<open>
  Claim C4, amended. For bands of one shape the yearly computation returns an array (the
  division raises nothing), and with \<open>t\<close> the temperature sum and \<open>p\<close> the precipitation
  sum at a pixel: the ratio pixel is not-a-number when \<open>t\<close> or \<open>p\<close> is not-a-number, and
  when both are zero; it is an infinity when \<open>t\<close> is zero and \<open>p\<close> is a number other than
  zero.
\<close>

theorem HTC_special_values:
  assumes "bands_T \<noteq> []" and "bands_P \<noteq> []"
    and "list_all (has_shape h w) bands_T" and "list_all (has_shape h w) bands_P"
    and "i < h" and "j < w"
    and "t = column_sum (pixel_column bands_T i j)"
    and "p = column_sum (pixel_column bands_P i j)"
  shows "\<exists>A. HTC bands_T bands_P = Inr A \<and>
           (np_isnan t \<or> np_isnan p \<longrightarrow> np_isnan (A ! i ! j)) \<and>
           (t = Fin 0 \<and> p = Fin 0 \<longrightarrow> np_isnan (A ! i ! j)) \<and>
           (t = Fin 0 \<and> \<not> np_isnan p \<and> p \<noteq> Fin 0 \<longrightarrow> np_isinf (A ! i ! j))"
proof -
  obtain A where A: "HTC bands_T bands_P = Inr A" and px: "A ! i ! j = np_divide p t"
    using HTC_pixel[OF assms(1-6)] assms(7,8) by auto
  have "np_isnan t \<or> np_isnan p \<longrightarrow> np_isnan (np_divide p t)"
    by (cases p; cases t) simp_all
  moreover have "t = Fin 0 \<and> p = Fin 0 \<longrightarrow> np_isnan (np_divide p t)"
    by simp
  moreover have "t = Fin 0 \<and> \<not> np_isnan p \<and> p \<noteq> Fin 0 \<longrightarrow> np_isinf (np_divide p t)"
    by (cases p) simp_all
  ultimately show ?thesis
    using A px by simp
qed

theorem HTC_special_values_witness:
  "(\<exists>A. HTC [[[Fin 0, Fin 0, NaN]]] [[[Fin 8, Fin 0, Fin 1]]] = Inr A \<and>
        np_isinf (A ! 0 ! 0) \<and> np_isnan (A ! 0 ! 1) \<and> np_isnan (A ! 0 ! 2))"
  using HTC_special_values[of "[[[Fin 0, Fin 0, NaN]]]" "[[[Fin 8, Fin 0, Fin 1]]]" 1 3 0 0
      "Fin 0" "Fin 8"]
    HTC_special_values[of "[[[Fin 0, Fin 0, NaN]]]" "[[[Fin 8, Fin 0, Fin 1]]]" 1 3 0 1
      "Fin 0" "Fin 0"]
    HTC_special_values[of "[[[Fin 0, Fin 0, NaN]]]" "[[[Fin 8, Fin 0, Fin 1]]]" 1 3 0 2
      "NaN" "Fin 1"]
  by (auto simp add: has_shape_def column_sum_def pixel_column_def)

subsection \<open>The aggregator's multi-year median\<close>

lemma shape_of_first:
  assumes "has_shape h w A" and "0 < h"
  shows "shape0 A = h" and "shape1 A = w"
  using assms by (cases A; simp add: has_shape_def shape0_def shape1_def)+

lemma median_axis0_shape:
  assumes "stack \<noteq> []" and "list_all (has_shape h w) stack" and "0 < h"
  shows "has_shape h w (np_median_axis0 stack)"
proof -
  obtain A rest where st: "stack = A # rest"
    using assms(1) by (cases stack) auto
  have "shape0 A = h" and "shape1 A = w"
    using shape_of_first[of h w A] assms(2,3) st by simp_all
  then show ?thesis
    using st by (simp add: np_median_axis0_def has_shape_def list_all_iff)
qed

lemma median_axis0_pixel:
  assumes "stack \<noteq> []" and "list_all (has_shape h w) stack" and "i < h" and "j < w"
  shows "np_median_axis0 stack ! i ! j = np_median (pixel_column stack i j)"
proof -
  obtain A rest where st: "stack = A # rest"
    using assms(1) by (cases stack) auto
  have "shape0 A = h" and "shape1 A = w"
    using shape_of_first[of h w A] assms(2,3) st by simp_all
  then show ?thesis
    using st assms(3,4) by (simp add: np_median_axis0_def)
qed

lemma negative_to_nan_range:
  "np_isnan (negative_to_nan x) \<or> np_less_equal (Fin 0) (negative_to_nan x)"
  by (cases x) (simp_all add: negative_to_nan_def np_less_equal_def)

lemma HTC_MEDIAN_pixel:
  assumes "bands \<noteq> []" and "list_all (has_shape h w) bands" and "i < h" and "j < w"
  shows "\<exists>M. HTC_MEDIAN bands = Inr M \<and> has_shape h w M \<and>
           M ! i ! j = negative_to_nan (np_median (pixel_column bands i j))"
proof -
  have h: "0 < h" using assms(3) by simp
  have st: "stackable bands"
    using stackable_uniform[OF assms(1,2) h] .
  have sh: "has_shape h w (np_median_axis0 bands)"
    using median_axis0_shape[OF assms(1,2) h] .
  have "pixelwise negative_to_nan (np_median_axis0 bands) ! i ! j
        = negative_to_nan (np_median_axis0 bands ! i ! j)"
    using nth_pixelwise[OF sh assms(3,4)] .
  then show ?thesis
    using st assms(1) has_shape_pixelwise[OF sh] median_axis0_pixel[OF assms]
    by (simp add: HTC_MEDIAN_def)
qed

lemma np_sort_replicate:
  "\<not> np_isnan x \<Longrightarrow> np_sort (replicate n x) = replicate n x"
proof (induction n)
  case 0
  then show ?case by (simp add: np_sort_def)
next
  case (Suc n)
  have nl: "\<not> sort_less x x"
    using Suc.prems by (cases x) (simp_all add: sort_less_def)
  have "np_insort x (replicate n x) = x # replicate n x"
    using nl by (cases n) simp_all
  then show ?case
    using Suc by (simp add: np_sort_def)
qed

lemma np_median_replicate:
  "np_median (replicate (Suc n) (Fin c)) = Fin c"
proof -
  define xs where "xs = replicate (Suc n) (Fin c)"
  have len: "length xs = Suc n" and ne: "xs \<noteq> []"
    by (simp_all add: xs_def)
  have nn: "\<not> list_ex np_isnan xs"
    by (simp add: xs_def list_ex_iff)
  have srt: "np_sort xs = xs"
    unfolding xs_def by (rule np_sort_replicate) simp
  have el: "xs ! k = Fin c" if "k < Suc n" for k
    unfolding xs_def using that by (rule nth_replicate)
  have mid: "xs ! (Suc n div 2) = Fin c"
    by (rule el) simp
  have low: "xs ! (Suc n div 2 - 1) = Fin c"
    by (rule el) simp
  have "np_median xs =
      (if odd (Suc n) then xs ! (Suc n div 2)
       else np_divide (np_add (xs ! (Suc n div 2 - 1)) (xs ! (Suc n div 2))) (Fin 2))"
    using nn ne by (simp only: np_median_def Let_def srt len) simp
  also have "\<dots> = Fin c"
    by (simp only: mid low) simp
  finally show ?thesis
    by (simp only: xs_def)
qed

lemma single_pixel_array:
  assumes "has_shape 1 1 M"
  shows "M = [[M ! 0 ! 0]]"
proof -
  obtain row where M: "M = [row]"
    using assms by (cases M) (auto simp: has_shape_def)
  then have "length row = 1"
    using assms by (simp add: has_shape_def)
  then obtain x where "row = [x]"
    by (cases row) auto
  then show ?thesis using M by simp
qed

lemma count_np_insort: "count_list (np_insort x ys) e = count_list (x # ys) e"
  by (induction ys) auto

lemma count_np_sort: "count_list (np_sort xs) e = count_list xs e"
  by (induction xs) (simp_all add: np_sort_def count_np_insort)

lemma same_counts_same_set:
  assumes "\<forall>e. count_list s e = count_list t e"
  shows "set s = set t"
proof -
  have "e \<in> set s \<longleftrightarrow> e \<in> set t" for e
    using assms count_list_0_iff[of s e] count_list_0_iff[of t e] by metis
  then show ?thesis by blast
qed

lemma set_np_insort: "set (np_insort x ys) = insert x (set ys)"
  by (induction ys) auto

lemma sort_less_asym: "sort_less y x \<Longrightarrow> \<not> sort_less x y"
  by (cases x; cases y) (simp_all add: sort_less_def)

lemma sort_less_negtrans:
  "\<not> sort_less y x \<Longrightarrow> \<not> sort_less z y \<Longrightarrow> \<not> sort_less z x"
  by (cases x; cases y; cases z) (simp_all add: sort_less_def)

lemma sorted_np_insort:
  "sorted_wrt (\<lambda>a b. \<not> sort_less b a) ys \<Longrightarrow>
   sorted_wrt (\<lambda>a b. \<not> sort_less b a) (np_insort x ys)"
proof (induction ys)
  case Nil
  then show ?case by simp
next
  case (Cons y ys)
  show ?case
  proof (cases "sort_less y x")
    case True
    have "\<forall>e\<in>set (np_insort x ys). \<not> sort_less e y"
      using Cons.prems True by (auto simp add: set_np_insort sort_less_asym)
    then show ?thesis
      using Cons True by simp
  next
    case False
    have "\<forall>e\<in>set ys. \<not> sort_less e y"
      using Cons.prems by simp
    then have "\<forall>e\<in>set ys. \<not> sort_less e x"
      using sort_less_negtrans[OF False] by blast
    then show ?thesis
      using Cons.prems False by simp
  qed
qed

lemma sorted_np_sort: "sorted_wrt (\<lambda>a b. \<not> sort_less b a) (np_sort xs)"
proof (induction xs)
  case Nil
  then show ?case by (simp add: np_sort_def)
next
  case (Cons x xs)
  then show ?case
    using sorted_np_insort[of "np_sort xs" x] by (simp add: np_sort_def)
qed

lemma sort_order_is_ieee:
  "\<not> np_isnan a \<Longrightarrow> \<not> np_isnan b \<Longrightarrow> \<not> sort_less b a \<Longrightarrow> np_less_equal a b"
  by (simp add: np_less_equal_def sort_less_def)

lemma np_sort_sorted_ieee:
  assumes "\<not> list_ex np_isnan xs"
  shows "sorted_wrt np_less_equal (np_sort xs)"
proof -
  have nn: "\<not> np_isnan e" if "e \<in> set (np_sort xs)" for e
  proof -
    have "e \<in> set xs"
      using that same_counts_same_set[of "np_sort xs" xs] by (simp add: count_np_sort)
    then show ?thesis
      using assms by (auto simp add: list_ex_iff)
  qed
  show ?thesis
    by (rule sorted_wrt_mono_rel[OF _ sorted_np_sort]) (simp add: nn sort_order_is_ieee)
qed

lemma np_less_equal_antisym: "np_less_equal a b \<Longrightarrow> np_less_equal b a \<Longrightarrow> a = b"
  by (cases a; cases b) (simp_all add: np_less_equal_def)

lemma sorted_permutation_unique:
  "sorted_wrt np_less_equal s \<Longrightarrow> sorted_wrt np_less_equal t \<Longrightarrow>
   \<forall>e. count_list s e = count_list t e \<Longrightarrow> s = t"
proof (induction s arbitrary: t)
  case Nil
  then have "set t = {}"
    using same_counts_same_set[of "[]" t] by simp
  then show ?case by simp
next
  case (Cons x s)
  have sets: "set (x # s) = set t"
    using same_counts_same_set[OF Cons.prems(3)] .
  then obtain y t' where t: "t = y # t'"
    by (cases t) auto
  have "x \<in> set t"
    using sets by auto
  then have xy: "x = y \<or> np_less_equal y x"
    using Cons.prems(2) t by auto
  have "y \<in> set (x # s)"
    using sets t by auto
  then have yx: "y = x \<or> np_less_equal x y"
    using Cons.prems(1) by auto
  have eq: "x = y"
    using xy yx np_less_equal_antisym by blast
  have "\<forall>e. count_list s e = count_list t' e"
  proof
    fix e
    have "count_list (x # s) e = count_list (x # t') e"
      using Cons.prems(3) t eq by simp
    then show "count_list s e = count_list t' e"
      by (simp split: if_splits)
  qed
  then have "s = t'"
    using Cons.IH[of t'] Cons.prems(1,2) t by simp
  then show ?case
    using eq t by simp
qed

lemma np_median_sorted_permutation:
  assumes "xs \<noteq> []" and "\<not> list_ex np_isnan xs"
    and "\<forall>e. count_list s e = count_list xs e" and "sorted_wrt np_less_equal s"
  shows "np_median xs =
     (if odd (length xs) then s ! (length xs div 2)
      else np_divide (np_add (s ! (length xs div 2 - 1)) (s ! (length xs div 2))) (Fin 2))"
proof -
  have "\<forall>e. count_list (np_sort xs) e = count_list s e"
    using assms(3) by (simp add: count_np_sort)
  then have "np_sort xs = s"
    using sorted_permutation_unique[OF np_sort_sorted_ieee[OF assms(2)] assms(4)] by simp
  then show ?thesis
    using assms(1,2) by (simp add: np_median_def Let_def)
qed

lemma np_median_nan: "list_ex np_isnan xs \<Longrightarrow> np_median xs = NaN"
  by (simp add: np_median_def)


lemma np_median_sorted_permutation_exists:
  assumes "xs \<noteq> []" and "\<not> list_ex np_isnan xs"
  shows "\<exists>s. (\<forall>e. count_list s e = count_list xs e) \<and> sorted_wrt np_less_equal s \<and>
     np_median xs =
       (if odd (length xs) then s ! (length xs div 2)
        else np_divide (np_add (s ! (length xs div 2 - 1)) (s ! (length xs div 2))) (Fin 2))"
proof -
  have "\<forall>e. count_list (np_sort xs) e = count_list xs e"
    by (simp add: count_np_sort)
  moreover have "sorted_wrt np_less_equal (np_sort xs)"
    using np_sort_sorted_ieee[OF assms(2)] .
  ultimately show ?thesis
    using np_median_sorted_permutation[OF assms, of "np_sort xs"] by blast
qed

lemma HTC_MEDIAN_single_pixel:
  "HTC_MEDIAN [[[Fin 1]], [[Fin 2]], [[Fin 3]], [[Fin 4]], [[Fin 5]]] = Inr [[Fin 3]]"
  "HTC_MEDIAN [[[Fin 5]], [[Fin 1]], [[Fin 4]], [[Fin 3]], [[Fin 2]]] = Inr [[Fin 3]]"
  "HTC_MEDIAN [[[Fin 9]], [[Fin (- 7)]], [[Fin 8]]] = Inr [[Fin 8]]"
  "HTC_MEDIAN [[[Fin 4]], [[Fin 1]], [[Fin 3]], [[Fin 2]]] = Inr [[Fin (5 / 2)]]"
  "HTC_MEDIAN [[[Fin (- 3)]], [[Fin 2]], [[Fin (- 1)]]] = Inr [[NaN]]"
  by (simp_all add: HTC_MEDIAN_def stackable_def has_shape_def shape0_def shape1_def
      np_median_axis0_def np_median_def pixel_column_def np_sort_def sort_less_def
      pixelwise_def negative_to_nan_def)

text \<open>
  Claim C5. For a stack of yearly bands of one shape, the second phase returns an array of
  that shape whose pixel is the median of the stack's values at that pixel, with a median
  below zero replaced by not-a-number; so every output pixel is not-a-number or at least
  zero. The median of a column \<open>xs\<close> is the statistical one: it is not-a-number when a
  value of the column is; otherwise, for every arrangement \<open>s\<close> of the values of \<open>xs\<close> in
  increasing order (the same values, each as often as in \<open>xs\<close>), it is the middle value of
  \<open>s\<close>, or the mean of the two middle values when their number is even; and such an
  arrangement exists. The single-pixel stack 1, 2, 3, 4, 5 gives 3, and so does 5, 1, 4, 3,
  2; the stack 9, -7, 8 gives 8; 4, 1, 3, 2 gives 2.5; -3, 2, -1 has the median -1 and
  gives not-a-number; and a stack of any length whose values are all -1 gives not-a-number.
\<close>

theorem HTC_MEDIAN_scrubbed_median:
  "(bands \<noteq> [] \<and> list_all (has_shape h w) bands \<and> i < h \<and> j < w \<longrightarrow>
      (\<exists>M. HTC_MEDIAN bands = Inr M \<and> has_shape h w M \<and>
           M ! i ! j = (let m = np_median (pixel_column bands i j)
                        in if np_less m (Fin 0) then NaN else m) \<and>
           (np_isnan (M ! i ! j) \<or> np_less_equal (Fin 0) (M ! i ! j))))
   \<and> (list_ex np_isnan xs \<longrightarrow> np_median xs = NaN)
   \<and> (xs \<noteq> [] \<and> \<not> list_ex np_isnan xs \<and> (\<forall>e. count_list s e = count_list xs e) \<and>
      sorted_wrt np_less_equal s \<longrightarrow>
        np_median xs =
          (if odd (length xs) then s ! (length xs div 2)
           else np_divide (np_add (s ! (length xs div 2 - 1)) (s ! (length xs div 2))) (Fin 2)))
   \<and> (xs \<noteq> [] \<and> \<not> list_ex np_isnan xs \<longrightarrow>
        (\<exists>t. (\<forall>e. count_list t e = count_list xs e) \<and> sorted_wrt np_less_equal t \<and>
          np_median xs =
            (if odd (length xs) then t ! (length xs div 2)
             else np_divide (np_add (t ! (length xs div 2 - 1)) (t ! (length xs div 2)))
                    (Fin 2))))
   \<and> HTC_MEDIAN [[[Fin 1]], [[Fin 2]], [[Fin 3]], [[Fin 4]], [[Fin 5]]] = Inr [[Fin 3]]
   \<and> HTC_MEDIAN [[[Fin 5]], [[Fin 1]], [[Fin 4]], [[Fin 3]], [[Fin 2]]] = Inr [[Fin 3]]
   \<and> HTC_MEDIAN [[[Fin 9]], [[Fin (- 7)]], [[Fin 8]]] = Inr [[Fin 8]]
   \<and> HTC_MEDIAN [[[Fin 4]], [[Fin 1]], [[Fin 3]], [[Fin 2]]] = Inr [[Fin (5 / 2)]]
   \<and> HTC_MEDIAN [[[Fin (- 3)]], [[Fin 2]], [[Fin (- 1)]]] = Inr [[NaN]]
   \<and> HTC_MEDIAN (replicate (Suc n) [[Fin (- 1)]]) = Inr [[NaN]]"
proof -
  have pixel: "\<exists>M. HTC_MEDIAN bands = Inr M \<and> has_shape h w M \<and>
           M ! i ! j = (let m = np_median (pixel_column bands i j)
                        in if np_less m (Fin 0) then NaN else m) \<and>
           (np_isnan (M ! i ! j) \<or> np_less_equal (Fin 0) (M ! i ! j))"
    if a: "bands \<noteq> [] \<and> list_all (has_shape h w) bands \<and> i < h \<and> j < w"
  proof -
    obtain M where M: "HTC_MEDIAN bands = Inr M" "has_shape h w M"
        "M ! i ! j = negative_to_nan (np_median (pixel_column bands i j))"
      using a HTC_MEDIAN_pixel[of bands h w i j] by auto
    have "np_isnan (M ! i ! j) \<or> np_less_equal (Fin 0) (M ! i ! j)"
      using M(3) negative_to_nan_range by simp
    then show ?thesis
      using M by (simp add: negative_to_nan_def Let_def)
  qed
  have nan: "np_median xs = NaN" if "list_ex np_isnan xs"
    using that by (rule np_median_nan)
  have every: "np_median xs =
          (if odd (length xs) then s ! (length xs div 2)
           else np_divide (np_add (s ! (length xs div 2 - 1)) (s ! (length xs div 2))) (Fin 2))"
    if "xs \<noteq> [] \<and> \<not> list_ex np_isnan xs \<and> (\<forall>e. count_list s e = count_list xs e) \<and>
      sorted_wrt np_less_equal s"
    using that by (intro np_median_sorted_permutation) simp_all
  have some: "\<exists>t. (\<forall>e. count_list t e = count_list xs e) \<and> sorted_wrt np_less_equal t \<and>
          np_median xs =
            (if odd (length xs) then t ! (length xs div 2)
             else np_divide (np_add (t ! (length xs div 2 - 1)) (t ! (length xs div 2)))
                    (Fin 2))"
    if "xs \<noteq> [] \<and> \<not> list_ex np_isnan xs"
    using that by (intro np_median_sorted_permutation_exists) simp_all
  have all_minus_one: "HTC_MEDIAN (replicate (Suc n) [[Fin (- 1)]]) = Inr [[NaN]]"
  proof -
    let ?bands = "replicate (Suc n) [[Fin (- 1)]]"
    have "list_all (has_shape 1 1) ?bands"
      by (simp add: list_all_iff has_shape_def)
    then obtain M where M: "HTC_MEDIAN ?bands = Inr M" "has_shape 1 1 M"
        "M ! 0 ! 0 = negative_to_nan (np_median (pixel_column ?bands 0 0))"
      using HTC_MEDIAN_pixel[of ?bands 1 1 0 0] by auto
    have "pixel_column ?bands 0 0 = replicate (Suc n) (Fin (- 1))"
      unfolding pixel_column_def by (simp only: map_replicate) simp
    then have "M ! 0 ! 0 = NaN"
      using M(3) np_median_replicate[of n "- 1"] by (simp add: negative_to_nan_def)
    then show ?thesis
      using M(1) single_pixel_array[OF M(2)] by simp
  qed
  show ?thesis
    using pixel nan every some all_minus_one HTC_MEDIAN_single_pixel by blast
qed

theorem HTC_MEDIAN_scrubbed_median_witness:
  "[[[Fin 5, Fin (- 3)]], [[Fin 1, Fin 2]], [[Fin 4, Fin (- 1)]], [[Fin 3, Fin (- 2)]],
    [[Fin 2, Fin (- 9)]]] \<noteq> [] \<and>
   list_all (has_shape 1 2)
     [[[Fin 5, Fin (- 3)]], [[Fin 1, Fin 2]], [[Fin 4, Fin (- 1)]], [[Fin 3, Fin (- 2)]],
      [[Fin 2, Fin (- 9)]]] \<and>
   (0::nat) < 1 \<and> (0::nat) < 2 \<and> (1::nat) < 2 \<and>
   (\<exists>M. HTC_MEDIAN
          [[[Fin 5, Fin (- 3)]], [[Fin 1, Fin 2]], [[Fin 4, Fin (- 1)]], [[Fin 3, Fin (- 2)]],
           [[Fin 2, Fin (- 9)]]] = Inr M \<and>
        M ! 0 ! 0 = Fin 3 \<and> M ! 0 ! 1 = NaN) \<and>
   list_ex np_isnan [Fin 1, NaN, Fin 0] \<and> np_median [Fin 1, NaN, Fin 0] = NaN \<and>
   [Fin 5, Fin 1, Fin 4, Fin 3, Fin 2] \<noteq> [] \<and>
   \<not> list_ex np_isnan [Fin 5, Fin 1, Fin 4, Fin 3, Fin 2] \<and>
   (\<forall>e. count_list [Fin 1, Fin 2, Fin 3, Fin 4, Fin 5] e
        = count_list [Fin 5, Fin 1, Fin 4, Fin 3, Fin 2] e) \<and>
   sorted_wrt np_less_equal [Fin 1, Fin 2, Fin 3, Fin 4, Fin 5] \<and>
   np_median [Fin 5, Fin 1, Fin 4, Fin 3, Fin 2] = Fin 3"
proof -
  let ?B = "[[[Fin 5, Fin (- 3)]], [[Fin 1, Fin 2]], [[Fin 4, Fin (- 1)]], [[Fin 3, Fin (- 2)]],
    [[Fin 2, Fin (- 9)]]]"
  let ?xs = "[Fin 5, Fin 1, Fin 4, Fin 3, Fin 2]"
  let ?s = "[Fin 1, Fin 2, Fin 3, Fin 4, Fin 5]"
  have shape: "?B \<noteq> [] \<and> list_all (has_shape 1 2) ?B"
    by (simp add: has_shape_def)
  have cols: "pixel_column ?B 0 0 = ?xs"
      "pixel_column ?B 0 1 = [Fin (- 3), Fin 2, Fin (- 1), Fin (- 2), Fin (- 9)]"
    by (simp_all add: pixel_column_def)
  have nan: "list_ex np_isnan [Fin 1, NaN, Fin 0]"
    by simp
  have hyp: "?xs \<noteq> [] \<and> \<not> list_ex np_isnan ?xs \<and>
      (\<forall>e. count_list ?s e = count_list ?xs e) \<and> sorted_wrt np_less_equal ?s"
    by (auto simp add: np_less_equal_def)
  have m1: "np_median ?xs = Fin 3"
    using HTC_MEDIAN_scrubbed_median[where xs = ?xs and s = ?s, THEN conjunct2, THEN conjunct2,
        THEN conjunct1, THEN mp, OF hyp]
    by simp
  have m2: "np_median [Fin (- 3), Fin 2, Fin (- 1), Fin (- 2), Fin (- 9)] = Fin (- 2)"
    by (simp add: np_median_def np_sort_def sort_less_def)
  have m3: "np_median [Fin 1, NaN, Fin 0] = NaN"
    using HTC_MEDIAN_scrubbed_median[where xs = "[Fin 1, NaN, Fin 0]", THEN conjunct2,
        THEN conjunct1, THEN mp, OF nan] .
  have p0: "\<exists>M. HTC_MEDIAN ?B = Inr M \<and> has_shape 1 2 M \<and>
      M ! 0 ! 0 = (let m = np_median (pixel_column ?B 0 0)
                   in if np_less m (Fin 0) then NaN else m) \<and>
      (np_isnan (M ! 0 ! 0) \<or> np_less_equal (Fin 0) (M ! 0 ! 0))"
    using HTC_MEDIAN_scrubbed_median[of ?B 1 2 0 0, THEN conjunct1] shape by simp
  have p1: "\<exists>M. HTC_MEDIAN ?B = Inr M \<and> has_shape 1 2 M \<and>
      M ! 0 ! 1 = (let m = np_median (pixel_column ?B 0 1)
                   in if np_less m (Fin 0) then NaN else m) \<and>
      (np_isnan (M ! 0 ! 1) \<or> np_less_equal (Fin 0) (M ! 0 ! 1))"
    using HTC_MEDIAN_scrubbed_median[of ?B 1 2 0 1, THEN conjunct1] shape by simp
  have "\<exists>M. HTC_MEDIAN ?B = Inr M \<and> M ! 0 ! 0 = Fin 3 \<and> M ! 0 ! 1 = NaN"
    using p0 p1 by (auto simp only: cols m1 m2 Let_def) simp_all
  then show ?thesis
    using shape nan hyp m1 m3 by simp
qed

subsection \<open>The scaler\<close>

lemma scaled_where_in_range:
  assumes "0 \<le> raw" and "raw \<le> 10000"
  shows "c_truncate (scaled_where raw) = raw div 100 + 1"
proof -
  have "0 \<le> real_of_int raw / 100 + 1"
    using assms(1) by simp
  moreover have "\<lfloor>real_of_int raw / 100 + 1\<rfloor> = raw div 100 + 1"
    using floor_divide_of_int_eq[of raw 100, where ?'a = real] by simp
  ultimately show ?thesis
    using assms by (simp add: c_truncate_def scaled_where_def)
qed

lemma scaled_where_outside:
  assumes "\<not> (0 \<le> raw \<and> raw \<le> 10000)"
  shows "c_truncate (scaled_where raw) = 108"
proof -
  have "scaled_where raw = 108"
    using assms by (auto simp add: scaled_where_def)
  then show ?thesis
    by (simp add: c_truncate_def)
qed

lemma div_100_bounds:
  assumes "0 \<le> raw" and "raw \<le> 10000"
  shows "0 \<le> raw div 100" and "raw div 100 \<le> (100::int)"
  using assms by simp_all

lemma uint_small: "0 \<le> k \<Longrightarrow> k < 256 \<Longrightarrow> uint (word_of_int k :: 8 word) = k"
  by (simp add: uint_word_of_int)

lemma scaled_data_no_wrap: "uint (scaled_data raw) = c_truncate (scaled_where raw)"
proof (cases "0 \<le> raw \<and> raw \<le> 10000")
  case True
  define q where "q = raw div 100 + 1"
  have tr: "c_truncate (scaled_where raw) = q"
    using True by (simp add: scaled_where_in_range q_def)
  have "0 \<le> q" and "q < 256"
    using div_100_bounds[of raw] True by (simp_all add: q_def)
  then have "uint (word_of_int q :: 8 word) = q"
    by (rule uint_small)
  then show ?thesis
    by (simp only: scaled_data_def astype_uint8_def tr)
next
  case False
  then show ?thesis
    by (simp add: scaled_data_def astype_uint8_def scaled_where_outside)
qed

text \<open>
  Claim C2. For a raw value in the range 0 to 10000 the scaled pixel is raw/100 + 1 cast to
  8 bits, which is the integer quotient plus one; for every other raw value it is 108. Raw
  0 gives 1, 10000 gives 101, 10001 and -1 give 108. Every scaled value lies between 1 and
  101 or is 108, and the 8-bit value is the truncated number itself: the cast never wraps.
\<close>

theorem scaled_data_values:
  "(0 \<le> raw \<and> raw \<le> 10000 \<longrightarrow>
      scaled_data raw = astype_uint8 (real_of_int raw / 100 + 1) \<and>
      uint (scaled_data raw) = raw div 100 + 1)
   \<and> (\<not> (0 \<le> raw \<and> raw \<le> 10000) \<longrightarrow> scaled_data raw = 108)
   \<and> scaled_data 0 = 1 \<and> scaled_data 10000 = 101
   \<and> scaled_data 10001 = 108 \<and> scaled_data (- 1) = 108
   \<and> ((1 \<le> uint (scaled_data raw) \<and> uint (scaled_data raw) \<le> 101) \<or> scaled_data raw = 108)
   \<and> uint (scaled_data raw) = c_truncate (scaled_where raw)"
proof -
  have inside: "scaled_data raw = astype_uint8 (real_of_int raw / 100 + 1) \<and>
      uint (scaled_data raw) = raw div 100 + 1" if "0 \<le> raw \<and> raw \<le> 10000"
    using that scaled_data_no_wrap[of raw] scaled_where_in_range[of raw]
    by (simp add: scaled_data_def scaled_where_def)
  have outside: "scaled_data raw = 108" if "\<not> (0 \<le> raw \<and> raw \<le> 10000)"
    using that by (simp add: scaled_data_def astype_uint8_def scaled_where_outside)
  have range: "(1 \<le> uint (scaled_data raw) \<and> uint (scaled_data raw) \<le> 101) \<or> scaled_data raw = 108"
  proof (cases "0 \<le> raw \<and> raw \<le> 10000")
    case True
    then have "uint (scaled_data raw) = raw div 100 + 1"
      using inside by blast
    then show ?thesis
      using div_100_bounds[of raw] True by simp
  next
    case False
    then show ?thesis using outside by simp
  qed
  have examples: "scaled_data 0 = 1" "scaled_data 10000 = 101" "scaled_data 10001 = 108"
      "scaled_data (- 1) = 108"
    by (simp_all add: scaled_data_def scaled_where_def astype_uint8_def c_truncate_def)
  show ?thesis
    using inside outside range examples scaled_data_no_wrap[of raw] by blast
qed

theorem scaled_data_values_witness:
  "(0::int) \<le> 9999 \<and> (9999::int) \<le> 10000 \<and> uint (scaled_data 9999) = 100 \<and>
   \<not> ((0::int) \<le> 20000 \<and> (20000::int) \<le> 10000) \<and> scaled_data 20000 = 108"
proof -
  have a: "(0::int) \<le> 9999 \<and> (9999::int) \<le> 10000"
    by simp
  have b: "\<not> ((0::int) \<le> 20000 \<and> (20000::int) \<le> 10000)"
    by simp
  have "uint (scaled_data 9999) = 9999 div 100 + 1"
    using scaled_data_values[of 9999, THEN conjunct1, THEN mp, OF a] by (rule conjunct2)
  moreover have "scaled_data 20000 = 108"
    using scaled_data_values[of 20000, THEN conjunct2, THEN conjunct1, THEN mp, OF b] .
  ultimately show ?thesis
    by simp
qed

subsection \<open>The DISS combiner\<close>

lemma unat_le_101: "(n :: 8 word) \<le> 101 \<Longrightarrow> unat n \<le> 101"
  by (simp add: word_le_nat_alt)

lemma valid_sum_no_wrap:
  assumes "(n1 :: 8 word) \<le> 101" and "(n3 :: 8 word) \<le> 101"
  shows "unat (n1 + n3) = unat n1 + unat n3"
proof -
  have "unat n1 + unat n3 < 2 ^ LENGTH(8)"
    using unat_le_101[OF assms(1)] unat_le_101[OF assms(2)] by simp
  then show ?thesis
    by (simp only: unat_add_lem)
qed

text \<open>
  Claim C3. Each memory term is its source value when the source is at most 101; a current
  or two-periods-back source above 101 is replaced by 50; and when only the previous-period
  source is above 101, the middle term is the average of the two neighbouring terms.
\<close>

theorem memory_terms:
  "(n1_tci1 \<le> 101 \<longrightarrow> n1_memory n1_tci1 = n1_tci1)
   \<and> (n2_tci2 \<le> 101 \<longrightarrow> n2_memory n1_tci1 n2_tci2 n3_tci3 = real (unat n2_tci2))
   \<and> (n3_tci3 \<le> 101 \<longrightarrow> n3_memory n3_tci3 = n3_tci3)
   \<and> (\<not> n1_tci1 \<le> 101 \<longrightarrow> n1_memory n1_tci1 = 50)
   \<and> (\<not> n3_tci3 \<le> 101 \<longrightarrow> n3_memory n3_tci3 = 50)
   \<and> (\<not> n2_tci2 \<le> 101 \<and> n1_tci1 \<le> 101 \<and> n3_tci3 \<le> 101 \<longrightarrow>
        n2_memory n1_tci1 n2_tci2 n3_tci3
          = (real (unat (n1_memory n1_tci1)) + real (unat (n3_memory n3_tci3))) / 2)"
  using valid_sum_no_wrap[of n1_tci1 n3_tci3]
  by (simp add: n1_memory_def n2_memory_def n3_memory_def)

theorem memory_terms_witness:
  "(40::8 word) \<le> 101 \<and> n1_memory 40 = 40 \<and> n2_memory 40 60 108 = 60 \<and> n3_memory 71 = 71 \<and>
   \<not> (108::8 word) \<le> 101 \<and> n1_memory 108 = 50 \<and> n3_memory 108 = 50 \<and>
   n2_memory 40 108 71 = 111 / 2"
  using memory_terms[of 40 60 108] memory_terms[of 108 60 71] memory_terms[of 40 108 71]
  by simp

text \<open>
  Claim C7. Where the mask is not 1 the continuous output is -1, whatever the formula
  gives; where the mask is 1 it is the value of the formula.
\<close>

theorem mask_enforced:
  "(n6_mask \<noteq> 1 \<longrightarrow>
      fst (process_pixel k n1_tci1 n2_tci2 n3_tci3 n5_siel40median n6_mask) = Fin (- 1))
   \<and> (n6_mask = 1 \<longrightarrow>
      fst (process_pixel k n1_tci1 n2_tci2 n3_tci3 n5_siel40median n6_mask)
        = diss_formula k n5_siel40median (n1_memory n1_tci1)
            (n2_memory n1_tci1 n2_tci2 n3_tci3) (n3_memory n3_tci3))
   \<and> (n6_mask \<noteq> 1 \<longrightarrow> n4_diss n6_mask computed = Fin (- 1))
   \<and> (n6_mask = 1 \<longrightarrow> n4_diss n6_mask computed = computed)"
  by (simp add: process_pixel_def n4_diss_def Let_def)

theorem mask_enforced_witness:
  "(0::int) \<noteq> 1 \<and>
   fst (process_pixel \<lparr>coef_a = 0, coef_b = 0, coef_c = 0, diss_base = 1, exp_factor = 0\<rparr>
         10 20 30 (Fin 3) 0) = Fin (- 1) \<and>
   fst (process_pixel \<lparr>coef_a = 0, coef_b = 0, coef_c = 0, diss_base = 1, exp_factor = 0\<rparr>
         10 20 30 (Fin 3) 1) = Fin 2"
  using mask_enforced[of 0 "\<lparr>coef_a = 0, coef_b = 0, coef_c = 0, diss_base = 1, exp_factor = 0\<rparr>"
      10 20 30 "Fin 3" NaN]
    mask_enforced[of 1 "\<lparr>coef_a = 0, coef_b = 0, coef_c = 0, diss_base = 1, exp_factor = 0\<rparr>"
      10 20 30 "Fin 3" NaN]
  by (simp add: diss_formula_def np_subtract_def)

subsection \<open>The classification\<close>

lemma digitize_fin:
  "n2_diss_kl (Fin v) =
     (if v < 0 then 0 else if v < 0.5 then 1 else if v < 0.8 then 2
      else if v < 1.5 then 3 else if v < 5 then 4 else 5)"
  by (simp add: n2_diss_kl_def np_digitize_def bins_def sort_less_def)

lemma digitize_special:
  "n2_diss_kl NInf = 0" "n2_diss_kl PInf = 6" "n2_diss_kl NaN = 6"
  by (simp_all add: n2_diss_kl_def np_digitize_def bins_def sort_less_def)

lemma bins_nth:
  "bins ! 0 = Fin 0" "bins ! 1 = Fin 0.5" "bins ! 2 = Fin 0.8" "bins ! 3 = Fin 1.5"
  "bins ! 4 = Fin 5" "bins ! 5 = PInf" "bins ! Suc 0 = Fin 0.5"
  by (simp_all add: bins_def)

lemma small_index: "1 \<le> c \<Longrightarrow> c \<le> 5 \<Longrightarrow> c = 1 \<or> c = 2 \<or> c = 3 \<or> c = 4 \<or> c = (5::nat)"
  by arith

lemma digitize_bin:
  assumes "1 \<le> c" and "c \<le> 5"
  shows "n2_diss_kl x = c \<longleftrightarrow> np_less_equal (bins ! (c - 1)) x \<and> np_less x (bins ! c)"
proof (cases x)
  case NaN
  then show ?thesis
    using assms by (simp add: digitize_special np_less_equal_def)
next
  case NInf
  then show ?thesis
    using small_index[OF assms]
    by (auto simp add: digitize_special np_less_equal_def bins_nth)
next
  case PInf
  then show ?thesis
    using small_index[OF assms]
    by (auto simp add: digitize_special np_less_equal_def bins_nth)
next
  case (Fin v)
  then show ?thesis
    using small_index[OF assms]
    by (auto simp add: digitize_fin np_less_equal_def bins_nth)
qed

text \<open>
  Claim C6. The class of a pixel is the result of the search of its masked continuous value
  among the edges 0, 0.5, 0.8, 1.5, 5, infinity, and the bins are closed on the left: for
  \<open>c\<close> from 1 to 5 the class is \<open>c\<close> exactly when the value is at least the edge
  number \<open>c - 1\<close> and less than the edge number \<open>c\<close>. So a value equal to one of the
  five edges falls into the bin that starts at it; 0.5 is in the bin from 0.5 to 0.8.
\<close>

theorem classification_left_inclusive:
  "snd (process_pixel k n1_tci1 n2_tci2 n3_tci3 n5_siel40median n6_mask)
     = np_digitize (fst (process_pixel k n1_tci1 n2_tci2 n3_tci3 n5_siel40median n6_mask)) bins
   \<and> (1 \<le> c \<and> c \<le> 5 \<longrightarrow>
        (n2_diss_kl x = c \<longleftrightarrow> np_less_equal (bins ! (c - 1)) x \<and> np_less x (bins ! c)))
   \<and> (1 \<le> c \<and> c \<le> 5 \<longrightarrow> n2_diss_kl (bins ! (c - 1)) = c)
   \<and> n2_diss_kl (Fin 0) = 1 \<and> n2_diss_kl (Fin 0.5) = 2 \<and> n2_diss_kl (Fin 0.8) = 3
   \<and> n2_diss_kl (Fin 1.5) = 4 \<and> n2_diss_kl (Fin 5) = 5"
proof -
  have pipeline: "snd (process_pixel k n1_tci1 n2_tci2 n3_tci3 n5_siel40median n6_mask)
     = np_digitize (fst (process_pixel k n1_tci1 n2_tci2 n3_tci3 n5_siel40median n6_mask)) bins"
    by (simp add: process_pixel_def Let_def n2_diss_kl_def)
  have bin: "n2_diss_kl x = c \<longleftrightarrow> np_less_equal (bins ! (c - 1)) x \<and> np_less x (bins ! c)"
    if "1 \<le> c \<and> c \<le> 5"
    using that digitize_bin[of c x] by simp
  have edge: "n2_diss_kl (bins ! (c - 1)) = c" if "1 \<le> c \<and> c \<le> 5"
    using that small_index[of c] by (auto simp add: bins_nth digitize_fin)
  have five: "n2_diss_kl (Fin 0) = 1" "n2_diss_kl (Fin 0.5) = 2" "n2_diss_kl (Fin 0.8) = 3"
      "n2_diss_kl (Fin 1.5) = 4" "n2_diss_kl (Fin 5) = 5"
    by (simp_all add: digitize_fin)
  show ?thesis
    using pipeline bin edge five by blast
qed

theorem classification_left_inclusive_witness:
  "(1::nat) \<le> 2 \<and> (2::nat) \<le> 5 \<and> n2_diss_kl (Fin 0.6) = 2 \<and>
   np_less_equal (bins ! (2 - 1)) (Fin 0.6) \<and> np_less (Fin 0.6) (bins ! 2) \<and>
   n2_diss_kl (bins ! (2 - 1)) = 2"
proof -
  have c: "(1::nat) \<le> 2 \<and> (2::nat) \<le> 5"
    by simp
  have le: "np_less_equal (bins ! (2 - 1)) (Fin 0.6)" and less: "np_less (Fin 0.6) (bins ! 2)"
    by (simp_all add: bins_def np_less_equal_def)
  have "n2_diss_kl (Fin 0.6) = 2"
    using classification_left_inclusive[of _ _ _ _ _ _ 2 "Fin 0.6",
        THEN conjunct2, THEN conjunct1, THEN mp, OF c] le less
    by blast
  moreover have "n2_diss_kl (bins ! (2 - 1)) = 2"
    using classification_left_inclusive[of _ _ _ _ _ _ 2 "Fin 0.6",
        THEN conjunct2, THEN conjunct2, THEN conjunct1, THEN mp, OF c] .
  ultimately show ?thesis
    using c le less by blast
qed

subsection \<open>The selection of the yearly files\<close>

text \<open>
  Claim C8. The name \<^verbatim>\<open>HTC_2001.tif\<close> carries the year 2001 at the positions 4 to 7, and
  2001 is one of the configured years; but line 56 slices the path joined to the directory.
  With the directory of the source, \<^verbatim>\<open>PATH_TO_HTC_DATA/\<close>, the slice of the joined path is
  \<^verbatim>\<open>_TO_\<close> and the file is left out of the stack. In a directory named \<^verbatim>\<open>HTC_2001\<close>
  the file of the year 1999, which is not configured, is taken into the stack.
\<close>

theorem htc_list_slices_joined_path:
  "py_slice 4 8 ''HTC_2001.tif'' = ''2001''
   \<and> ''2001'' \<in> set (map str_int htc_years)
   \<and> ''1999'' \<notin> set (map str_int htc_years)
   \<and> htc_list_all ''PATH_TO_HTC_DATA/'' [''HTC_2001.tif''] = [''PATH_TO_HTC_DATA/HTC_2001.tif'']
   \<and> py_slice 4 8 ''PATH_TO_HTC_DATA/HTC_2001.tif'' = ''_TO_''
   \<and> htc_list ''PATH_TO_HTC_DATA/'' [''HTC_2001.tif''] = []
   \<and> htc_list ''HTC_2001'' [''HTC_1999.tif''] = [''HTC_2001/HTC_1999.tif'']"
  by (simp add: htc_list_def htc_list_all_def endswith_def os_path_join_def year_selected_def
      py_slice_def htc_years_def str_int_def str_nat.simps upto_rec1)

subsection \<open>Georeferencing of the written rasters\<close>

lemma scale_file_georeferencing:
  assumes "scale_file src = Inr (scaled_dst, colour_dst)"
  shows "ds_crs scaled_dst = ds_crs src \<and> ds_transform scaled_dst = ds_transform src \<and>
         ds_crs colour_dst = ds_crs src \<and> ds_transform colour_dst = ds_transform src"
  using assms
  by (auto simp add: scale_file_def Let_def rio_open_w_def dst_write_def split: sum.splits)

text \<open>
  Claim C9. The scaler opens its two rasters with the \<^verbatim>\<open>crs\<close> and \<^verbatim>\<open>transform\<close> of the
  source (lemma \<open>scale_file_georeferencing\<close>). The aggregator does not: from yearly
  inputs in EPSG:4326 with a transform of their own, the yearly raster and the median
  raster are written without a coordinate reference system and with the identity
  transform.
\<close>

theorem aggregator_drops_georeferencing:
  "map_sum id ds_crs
     (htc_year
        [\<lparr>ds_height = 1, ds_width = 1, ds_count = 1, ds_dtype = ''float32'',
          ds_crs = Some ''EPSG:4326'', ds_transform = (0.1, 0, 14, 0, - 0.1, 55),
          ds_bands = [1 \<mapsto> [[Fin 1]]]\<rparr>]
        [\<lparr>ds_height = 1, ds_width = 1, ds_count = 1, ds_dtype = ''float32'',
          ds_crs = Some ''EPSG:4326'', ds_transform = (0.1, 0, 14, 0, - 0.1, 55),
          ds_bands = [1 \<mapsto> [[Fin 2]]]\<rparr>]) = Inr None
   \<and> map_sum id ds_transform
     (htc_year
        [\<lparr>ds_height = 1, ds_width = 1, ds_count = 1, ds_dtype = ''float32'',
          ds_crs = Some ''EPSG:4326'', ds_transform = (0.1, 0, 14, 0, - 0.1, 55),
          ds_bands = [1 \<mapsto> [[Fin 1]]]\<rparr>]
        [\<lparr>ds_height = 1, ds_width = 1, ds_count = 1, ds_dtype = ''float32'',
          ds_crs = Some ''EPSG:4326'', ds_transform = (0.1, 0, 14, 0, - 0.1, 55),
          ds_bands = [1 \<mapsto> [[Fin 2]]]\<rparr>]) = Inr (1, 0, 0, 0, 1, 0)
   \<and> map_sum id ds_crs
     (htc_median_file
        [\<lparr>ds_height = 1, ds_width = 1, ds_count = 1, ds_dtype = ''float32'',
          ds_crs = Some ''EPSG:4326'', ds_transform = (0.1, 0, 14, 0, - 0.1, 55),
          ds_bands = [1 \<mapsto> [[Fin 2]]]\<rparr>]) = Inr None
   \<and> map_sum id ds_transform
     (htc_median_file
        [\<lparr>ds_height = 1, ds_width = 1, ds_count = 1, ds_dtype = ''float32'',
          ds_crs = Some ''EPSG:4326'', ds_transform = (0.1, 0, 14, 0, - 0.1, 55),
          ds_bands = [1 \<mapsto> [[Fin 2]]]\<rparr>]) = Inr (1, 0, 0, 0, 1, 0)"
  by (simp add: htc_year_def htc_median_file_def read1_def HTC_def HTC_MEDIAN_def
      stackable_def has_shape_def shape0_def shape1_def save_htc_def rio_open_w_def
      dst_write_def identity_affine_def)

end
